theory Spec2Isabelle
  imports Complex_Main "HOL-Library.Word"
begin

section \<open>Exceptions of the Python run time\<close>

text \<open>
  The exceptions the modelled functions can raise. A function that may raise returns
  \<open>py_error + 'a\<close>, with \<open>Inl\<close> for the exception.
\<close>

datatype py_error = IndexError | NameError | TypeError | AttributeError

section \<open>Metropolis (src/mcmc/mcmc.py)\<close>

subsection \<open>calc_accept_status\<close>

text \<open>
  \<^verbatim>\<open>
  def calc_accept_status(logqp, logqp_ref=None):
      if logqp_ref is None:
          logqp_ref = logqp[0]
      status = np.empty(len(logqp), dtype=bool)
      rand_arr = np.log(np.random.rand(logqp.shape[0]))
      for i, logqp_i in enumerate(logqp):
          status[i] = rand_arr[i] < (logqp_ref - logqp_i)
          if status[i]:
              logqp_ref = logqp_i
      return status
  \<close>
  The array \<open>rand_arr\<close> of the logarithms of the uniform draws is the only source of
  randomness; the model takes it as an argument (one entry per entry of \<open>logqp\<close>).
  Numbers are real numbers. \<open>logqp[0]\<close> on an empty array raises IndexError.
\<close>

fun accept_loop :: "real list \<Rightarrow> real \<Rightarrow> nat \<Rightarrow> real list \<Rightarrow> bool list" where
  "accept_loop rand_arr logqp_ref i [] = []"
| "accept_loop rand_arr logqp_ref i (logqp_i # rest) =
     (let status_i = (rand_arr ! i < logqp_ref - logqp_i)
      in status_i # accept_loop rand_arr (if status_i then logqp_i else logqp_ref) (Suc i) rest)"

definition calc_accept_status :: "real list \<Rightarrow> real option \<Rightarrow> real list \<Rightarrow> py_error + bool list" where
  "calc_accept_status logqp logqp_ref rand_arr =
     (case logqp_ref of
        None \<Rightarrow>
          (case logqp of
             [] \<Rightarrow> Inl IndexError
           | logqp_0 # _ \<Rightarrow> Inr (accept_loop rand_arr logqp_0 0 logqp))
      | Some r \<Rightarrow> Inr (accept_loop rand_arr r 0 logqp))"

text \<open>
  The reference the specification describes, in its own words: it starts at the given
  value, and after position \<open>i\<close> has been examined it is \<open>logqp[i]\<close> if that position
  was accepted and unchanged otherwise. \<open>spec_reference rand_arr logqp r0 i\<close> is the
  reference in force when position \<open>i\<close> is examined.
\<close>

fun spec_reference :: "real list \<Rightarrow> real list \<Rightarrow> real \<Rightarrow> nat \<Rightarrow> real" where
  "spec_reference rand_arr logqp r0 0 = r0"
| "spec_reference rand_arr logqp r0 (Suc i) =
     (if rand_arr ! i < spec_reference rand_arr logqp r0 i - logqp ! i
      then logqp ! i
      else spec_reference rand_arr logqp r0 i)"

definition start_reference :: "real list \<Rightarrow> real option \<Rightarrow> real" where
  "start_reference logqp logqp_ref = (case logqp_ref of None \<Rightarrow> logqp ! 0 | Some r \<Rightarrow> r)"

subsection \<open>calc_accept_indices\<close>

text \<open>
  \<^verbatim>\<open>
  def calc_accept_indices(accept_seq):
      indices = np.zeros(len(accept_seq), dtype=int)
      cntr = 0
      for ind, accept in enumerate(accept_seq):
          if accept:
              cntr = ind
          indices[ind] = cntr
      return indices
  \<close>
\<close>

fun indices_loop :: "nat \<Rightarrow> nat \<Rightarrow> bool list \<Rightarrow> nat list" where
  "indices_loop cntr ind [] = []"
| "indices_loop cntr ind (accept # rest) =
     (let cntr' = (if accept then ind else cntr)
      in cntr' # indices_loop cntr' (Suc ind) rest)"

definition calc_accept_indices :: "bool list \<Rightarrow> nat list" where
  "calc_accept_indices accept_seq = indices_loop 0 0 accept_seq"

subsection \<open>calc_accept_count\<close>

text \<open>
  \<^verbatim>\<open>
  def calc_accept_count(status):
      ind = np.where(status)[0]  # index of True ones
      mul = ind[1:] - ind[:-1]  # count except for the last
      return ind[0], list(mul) + [len(states) - ind[-1]]
  \<close>
  The names the body can resolve are its parameter and locals, the names the module
  binds at top level (its imports and classes) and the builtins it uses. A name that is
  none of these raises NameError when it is evaluated. The returned tuple is evaluated
  left to right, so \<open>ind[0]\<close> is read (IndexError when nothing was accepted) before
  \<open>len(states)\<close> is.
\<close>

datatype pyval = BoolArray "bool list" | IntArray "int list" | Opaque

definition module_globals :: "string list" where
  "module_globals =
     [''torch'', ''np'', ''copy'', ''torch_device'', ''seize'', ''estimate_logz'',
      ''fmt_val_err'', ''Resampler'', ''MCMCSampler'', ''BlockedMCMCSampler'',
      ''MCMCHistory'', ''Metropolis'']"

definition builtins_used :: "string list" where
  "builtins_used = [''len'', ''list'']"

definition count_scope :: "bool list \<Rightarrow> int list \<Rightarrow> int list \<Rightarrow> (string \<times> pyval) list" where
  "count_scope status ind mul =
     [(''status'', BoolArray status), (''ind'', IntArray ind), (''mul'', IntArray mul)]
     @ map (\<lambda>n. (n, Opaque)) (module_globals @ builtins_used)"

definition np_where :: "bool list \<Rightarrow> int list" where
  "np_where status = map int (filter (\<lambda>i. status ! i) [0..<length status])"

definition py_len :: "pyval \<Rightarrow> py_error + int" where
  "py_len v = (case v of BoolArray xs \<Rightarrow> Inr (int (length xs))
               | IntArray xs \<Rightarrow> Inr (int (length xs))
               | Opaque \<Rightarrow> Inl TypeError)"

definition calc_accept_count :: "bool list \<Rightarrow> py_error + (int \<times> int list)" where
  "calc_accept_count status =
     (let ind = np_where status;
          mul = map2 (\<lambda>a b. a - b) (tl ind) (butlast ind)
      in case ind of
           [] \<Rightarrow> Inl IndexError
         | ind_0 # _ \<Rightarrow>
             (case map_of (count_scope status ind mul) ''states'' of
                None \<Rightarrow> Inl NameError
              | Some v \<Rightarrow>
                  (case py_len v of
                     Inl e \<Rightarrow> Inl e
                   | Inr n \<Rightarrow> Inr (ind_0, mul @ [n - last ind]))))"

section \<open>MCMCSampler (src/mcmc/mcmc.py)\<close>

text \<open>
  The persisted reference \<open>self._ref\<close>, created by \<open>__init__\<close> as
  \<^verbatim>\<open>dict(sample=None, logq=None, logp=None, logqp=None)\<close>. A sample is a value of any
  type \<open>'y\<close>.
\<close>

record 'y ref_state =
  ref_sample :: "'y option"
  ref_logq :: "real option"
  ref_logp :: "real option"
  ref_logqp :: "real option"

definition init_ref :: "'y ref_state" where
  "init_ref = \<lparr>ref_sample = None, ref_logq = None, ref_logp = None, ref_logqp = None\<rparr>"

definition ref_populated :: "'y ref_state \<Rightarrow> bool" where
  "ref_populated ref =
     (ref_sample ref \<noteq> None \<and> ref_logq ref \<noteq> None \<and> ref_logp ref \<noteq> None
      \<and> ref_logqp ref \<noteq> None)"

text \<open>
  \<^verbatim>\<open>
  def _accept_reject_step(self, y, logq, logp, bookkeeping=False):
      ref = self._ref
      logqp_ref = ref['logqp']
      accept_seq = Metropolis.calc_accept_status(seize(logq - logp), logqp_ref)
      if accept_seq[0] == False:
          y[0], logq[0], logp[0] = ref['sample'], ref['logq'], ref['logp']
      accept_ind = Metropolis.calc_accept_indices(accept_seq)
      accept_ind_torch = torch.LongTensor(accept_ind).to(torch_device)
      func = lambda x: x.index_select(0, accept_ind_torch)
      y, logq, logp = func(y), func(logq), func(logp)
      ref['sample'] = y[-1]
      ref['logq'] = logq[-1].item()
      ref['logp'] = logp[-1].item()
      ref['logqp'] = ref['logq'] - ref['logp']
      self.history.bookkeeping(accept_rate=np.mean(accept_seq))  # always save
      if bookkeeping:
          self.history.bookkeeping(accept_seq=accept_seq, accept_ind=accept_ind)
      return y, logq, logp
  \<close>
  The batch \<open>y, logq, logp\<close> is what \<open>sample_\<close> drew from the raw distribution: three
  arrays of one length. Storing \<open>None\<close> into an entry of a tensor raises TypeError, which
  is what the first-item branch does when the reference is still empty. The model
  returns the new reference, the emitted batch, and \<open>accept_seq\<close> and \<open>accept_ind\<close> as
  the bookkeeping records them.
\<close>

definition index_select :: "'a list \<Rightarrow> nat list \<Rightarrow> 'a list" where
  "index_select x ind = map (\<lambda>i. x ! i) ind"

definition first_item ::
  "'y ref_state \<Rightarrow> bool \<Rightarrow> 'y list \<Rightarrow> real list \<Rightarrow> real list
     \<Rightarrow> py_error + ('y list \<times> real list \<times> real list)" where
  "first_item ref accept_0 y logq logp =
     (if accept_0 = False then
        (case (ref_sample ref, ref_logq ref, ref_logp ref) of
           (Some s, Some q, Some p) \<Rightarrow> Inr (y[0 := s], logq[0 := q], logp[0 := p])
         | _ \<Rightarrow> Inl TypeError)
      else Inr (y, logq, logp))"

definition accept_reject_step ::
  "'y ref_state \<Rightarrow> 'y list \<Rightarrow> real list \<Rightarrow> real list \<Rightarrow> real list
     \<Rightarrow> py_error + ('y ref_state \<times> ('y list \<times> real list \<times> real list) \<times> (bool list \<times> nat list))" where
  "accept_reject_step ref y logq logp rand_arr =
     (let logqp_ref = ref_logqp ref in
      case calc_accept_status (map2 (\<lambda>a b. a - b) logq logp) logqp_ref rand_arr of
        Inl e \<Rightarrow> Inl e
      | Inr accept_seq \<Rightarrow>
          (case accept_seq of
             [] \<Rightarrow> Inl IndexError
           | accept_0 # _ \<Rightarrow>
               (case first_item ref accept_0 y logq logp of
                  Inl e \<Rightarrow> Inl e
                | Inr (y1, logq1, logp1) \<Rightarrow>
                    (let accept_ind = calc_accept_indices accept_seq;
                         y2 = index_select y1 accept_ind;
                         logq2 = index_select logq1 accept_ind;
                         logp2 = index_select logp1 accept_ind;
                         ref' = \<lparr>ref_sample = Some (last y2),
                                 ref_logq = Some (last logq2),
                                 ref_logp = Some (last logp2),
                                 ref_logqp = Some (last logq2 - last logp2)\<rparr>
                     in Inr (ref', (y2, logq2, logp2), (accept_seq, accept_ind))))))"

section \<open>BlockedMCMCSampler.sweep (src/mcmc/mcmc.py)\<close>

text \<open>
  \<^verbatim>\<open>
  def sweep(self, x, n_blocks=1, logqp_ref=None):
      prior = self._model.prior
      net_ = self._model.net_
      action = self._model.action
      accept_seq = np.empty(n_blocks, dtype=bool)
      lrand_arr = np.log(np.random.rand(n_blocks))
      for ind in range(n_blocks):
          prior.blockupdater(x, ind)  # in-place updater
          y, logJ = net_(x)
          logq = prior.log_prob(x) - logJ
          logp = -action(y)
          if ind == 0 and logqp_ref is None:
              accept_seq[ind] = True
          else:
              accept_seq[ind] = lrand_arr[ind] < logqp_ref - (logq - logp)[0]
          if accept_seq[ind]:
              logqp_ref = (logq - logp).item()
          else:
              prior.blockupdater.restore(x, ind)
      return accept_seq, logqp_ref
  \<close>
  The prior, the flow \<open>net_\<close> and the action are external collaborators, taken as
  functions. The pre-image \<open>x\<close> (type \<open>'x\<close>) is mutated in place by the block updater
  and by its restore; the updater's own state (what it overwrote, its random source)
  has type \<open>'u\<close>. Each call to the prior's two primitives is logged, in order.
  \<open>None - tensor\<close> raises TypeError.
\<close>

record ('x, 'y, 'u) blocked_model =
  blockupdater :: "'u \<Rightarrow> 'x \<Rightarrow> nat \<Rightarrow> 'u \<times> 'x"
  blockupdater_restore :: "'u \<Rightarrow> 'x \<Rightarrow> nat \<Rightarrow> 'u \<times> 'x"
  net_forward :: "'x \<Rightarrow> 'y \<times> real"
  prior_log_prob :: "'x \<Rightarrow> real"
  action :: "'y \<Rightarrow> real"

datatype prior_call = Update nat | Restore nat

record ('x, 'u) sweep_state =
  sw_x :: 'x
  sw_updater :: 'u
  sw_logqp_ref :: "real option"
  sw_accept_seq :: "bool list"
  sw_calls :: "prior_call list"

definition metropolis_condition :: "nat \<Rightarrow> real option \<Rightarrow> real list \<Rightarrow> real \<Rightarrow> py_error + bool" where
  "metropolis_condition ind logqp_ref lrand_arr logqp =
     (if ind = 0 \<and> logqp_ref = None then Inr True
      else (case logqp_ref of
              None \<Rightarrow> Inl TypeError
            | Some r \<Rightarrow> Inr (lrand_arr ! ind < r - logqp)))"

definition sweep_block ::
  "('x, 'y, 'u) blocked_model \<Rightarrow> real list \<Rightarrow> nat \<Rightarrow> ('x, 'u) sweep_state
     \<Rightarrow> py_error + ('x, 'u) sweep_state" where
  "sweep_block M lrand_arr ind s =
     (let (u1, x1) = blockupdater M (sw_updater s) (sw_x s) ind;
          (y, logJ) = net_forward M x1;
          logq = prior_log_prob M x1 - logJ;
          logp = - action M y
      in case metropolis_condition ind (sw_logqp_ref s) lrand_arr (logq - logp) of
           Inl e \<Rightarrow> Inl e
         | Inr accept \<Rightarrow>
             (if accept then
                Inr \<lparr>sw_x = x1, sw_updater = u1, sw_logqp_ref = Some (logq - logp),
                     sw_accept_seq = sw_accept_seq s @ [accept],
                     sw_calls = sw_calls s @ [Update ind]\<rparr>
              else
                (let (u2, x2) = blockupdater_restore M u1 x1 ind
                 in Inr \<lparr>sw_x = x2, sw_updater = u2, sw_logqp_ref = sw_logqp_ref s,
                         sw_accept_seq = sw_accept_seq s @ [accept],
                         sw_calls = sw_calls s @ [Update ind, Restore ind]\<rparr>)))"

fun sweep_loop ::
  "('x, 'y, 'u) blocked_model \<Rightarrow> real list \<Rightarrow> nat list \<Rightarrow> ('x, 'u) sweep_state
     \<Rightarrow> py_error + ('x, 'u) sweep_state" where
  "sweep_loop M lrand_arr [] s = Inr s"
| "sweep_loop M lrand_arr (ind # inds) s =
     (case sweep_block M lrand_arr ind s of
        Inl e \<Rightarrow> Inl e
      | Inr s' \<Rightarrow> sweep_loop M lrand_arr inds s')"

definition sweep ::
  "('x, 'y, 'u) blocked_model \<Rightarrow> 'u \<Rightarrow> 'x \<Rightarrow> nat \<Rightarrow> real option \<Rightarrow> real list
     \<Rightarrow> py_error + ('x, 'u) sweep_state" where
  "sweep M u x n_blocks logqp_ref lrand_arr =
     sweep_loop M lrand_arr [0..<n_blocks]
       \<lparr>sw_x = x, sw_updater = u, sw_logqp_ref = logqp_ref, sw_accept_seq = [], sw_calls = []\<rparr>"

text \<open>
  The log-ratio \<open>logq - logp\<close> of a pre-image, and the pre-image after the block
  updater has run on block \<open>ind\<close>: the quantities a block is judged on.
\<close>

definition log_ratio :: "('x, 'y, 'u) blocked_model \<Rightarrow> 'x \<Rightarrow> real" where
  "log_ratio M x =
     (let (y, logJ) = net_forward M x;
          logq = prior_log_prob M x - logJ;
          logp = - action M y
      in logq - logp)"

section \<open>Mask (src/mask/mask.py)\<close>

text \<open>
  A tensor of shape \<open>[batch, *shape]\<close> is the list of its batch rows, each row the
  entries of one lattice in row-major order; its entries are real numbers. The mask is a
  \<open>torch.uint8\<close> tensor of the lattice's shape, held in the same row-major order.
  Elementwise operations are written with \<open>map2\<close>: they are the torch operations on
  operands of one shape, and mean nothing for operands of different shapes (where torch
  broadcasts or raises).
\<close>

type_synonym uint8 = "8 word"
type_synonym tensor = "real list list"

subsection \<open>The two mask patterns\<close>




subsection \<open>The mask object\<close>


datatype Mask =
    SameShape (mask: "uint8 list") (shape: "nat list")
  | AnotherShape (mask: "uint8 list") (cat_mask: "uint8 list") (shape: "nat list")



subsection \<open>split, cat and purify\<close>

text \<open>
  \<^verbatim>\<open>
  def _sameshape_split(self, x):
      return (1 - self.mask) * x, self.mask * x

  def _sameshape_cat(self, x_0, x_1):
      return x_0 + x_1

  def _sameshape_purify(self, x_chnl, channel, zero2one=False):
      if not zero2one:
          if channel == 0:
              return (1 - self.mask) * x_chnl
          else:
              return self.mask * x_chnl
      else:
          if channel == 0:
              return (1 - self.mask) * x_chnl + self.mask
          else:
              return self.mask * x_chnl + (1 - self.mask)
  \<close>
  \<open>1 - self.mask\<close> is computed in \<open>uint8\<close>; a product or sum with a float tensor is
  computed in floats, the mask broadcast over the batch.
\<close>

definition one_minus :: "uint8 list \<Rightarrow> uint8 list" where
  "one_minus m = map (\<lambda>b. 1 - b) m"

definition mul_mask :: "uint8 list \<Rightarrow> tensor \<Rightarrow> tensor" where
  "mul_mask m x = map (\<lambda>row. map2 (\<lambda>b v. real (unat b) * v) m row) x"



definition sameshape_split :: "uint8 list \<Rightarrow> tensor \<Rightarrow> tensor \<times> tensor" where
  "sameshape_split m x = (mul_mask (one_minus m) x, mul_mask m x)"



text \<open>
  \<^verbatim>\<open>
  def _anothershape_split(self, x):
      mask = self.mask
      reshape_size = (*x.shape[:-mask.dim()], -1)
      return (
              torch.masked_select(x, mask == 0).reshape(*reshape_size),
              torch.masked_select(x, mask == 1).reshape(*reshape_size)
             )

  def _anothershape_cat(self, x_0, x_1):
      mask = self.cat_mask
      x_shape = (*x_0.shape[:-1], *self.shape)
      x = torch.empty(*x_shape)
      x[..., mask == 0] = x_0
      x[..., mask == 1] = x_1
      return x

  def _anothershape_purify(self, x_chnl, channel, zero2one=False):
      return x_chnl
  \<close>
  \<open>positions m v\<close> are the sites where the mask equals \<open>v\<close>, in row-major order.
  \<open>masked_select\<close> reads a row at these sites; the indexed assignment writes a row
  of values to them, one after the other. \<open>torch.empty\<close> allocates without
  initialising: the model starts from zeros, and the two assignments overwrite every site
  of a mask of zeros and ones.
\<close>

definition positions :: "uint8 list \<Rightarrow> uint8 \<Rightarrow> nat list" where
  "positions m v = filter (\<lambda>i. m ! i = v) [0..<length m]"

definition masked_select :: "real list \<Rightarrow> uint8 list \<Rightarrow> uint8 \<Rightarrow> real list" where
  "masked_select row m v = map (\<lambda>i. row ! i) (positions m v)"

definition index_put :: "real list \<Rightarrow> nat list \<Rightarrow> real list \<Rightarrow> real list" where
  "index_put row ps vals = fold (\<lambda>(i, v) r. r[i := v]) (zip ps vals) row"

definition anothershape_split :: "uint8 list \<Rightarrow> tensor \<Rightarrow> tensor \<times> tensor" where
  "anothershape_split m x =
     (map (\<lambda>row. masked_select row m 0) x, map (\<lambda>row. masked_select row m 1) x)"



text \<open>The methods as the constructor bound them.\<close>

fun split :: "Mask \<Rightarrow> tensor \<Rightarrow> tensor \<times> tensor" where
  "split (SameShape m shp) x = sameshape_split m x"
| "split (AnotherShape m cm shp) x = anothershape_split m x"






text \<open>
  The shape of a channel of a mask, for a batch of \<open>b\<close> rows: in the same-shape mode the
  full lattice with zeros outside the channel's sites; in the reshaped mode one entry per
  site of the channel.
\<close>

definition shaped :: "nat \<Rightarrow> nat \<Rightarrow> tensor \<Rightarrow> bool" where
  "shaped b n t = (length t = b \<and> (\<forall>row \<in> set t. length row = n))"




section \<open>Coupling lists (src/nn/scalar/couplings_v2_.py)\<close>

subsection \<open>Tensors with a channel axis, and the nets\<close>

text \<open>
  A net is called on the frozen channel with the channel axis inserted
  (\<open>unsqueeze(channels_axis)\<close>: one channel) and returns a tensor with some number
  of channels along that axis; a tensor with a channel axis is the list of its channels.
  \<open>postprocess\<close> is \<open>squeeze(channels_axis)\<close>, which removes an axis of size one.
  The class requires of each net the number of output channels of its transform (one for
  a shift, two for an affine layer, which splits them as \<open>(1, 1)\<close>); for any other
  number the result in torch is not a lattice-shaped tensor, and the model returns the
  empty tensor.
\<close>

type_synonym net = "tensor list \<Rightarrow> tensor list"









subsection \<open>CouplingList and its shift and affine subclasses\<close>



















subsection \<open>The controlled coupling lists\<close>











subsection \<open>transfer\<close>

text \<open>
  \<^verbatim>\<open>
  # CouplingList_
  def __init__(self, nets, *, mask, channels_axis=1, zee2sym=False, label='coupling_'):

  def transfer(self, scale_factor=1, mask=None, **extra):
      return self.__class__(
              [net.transfer(scale_factor=scale_factor) for net in self.nets],
              mask=self.mask if mask is None else mask,
              label=self.label,
              channels_axis=self.channels_axis,
              zee2sym=self.zee2sym
              )

  # RQSplineList_
  def __init__(self, nets, *, mask,
          xlim=(0, 1), ylim=(0, 1), knots_x=None, knots_y=None, extrap={}, **kwargs):
      super().__init__(nets, mask=mask, **kwargs)

  def transfer(self, scale_factor=1, mask=None, **extra):
      return self.__class__(
              self.net0.transfer(scale_factor=scale_factor),
              self.net1.transfer(scale_factor=scale_factor),
              mask=self.mask if mask is None else mask,
              label=self.label,
              channels_axis=self.channels_axis,
              xlim=self.xlim,
              ylim=self.ylim,
              knots_x=self.knots_x,
              knots_y=self.knots_y,
              extrap=self.extrap
              )

  # MultiRQSplineList_
  def __init__(self, nets, *, mask,
          xlims=[(0, 1), (0, 1)], ylims=[(0, 1), (0, 1)],
          knots_x=[None, None], knots_y=[None, None], extraps=[{}, {}], **kwargs):
      super().__init__(nets, mask=mask, **kwargs)

  def transfer(self, scale_factor=1, mask=None, **extra):
      return self.__class__(
              self.net0.transfer(scale_factor=scale_factor),
              self.net1.transfer(scale_factor=scale_factor),
              mask=self.mask if mask is None else mask,
              label=self.label,
              channels_axis=self.channels_axis,
              xlim=self.xlims,
              ylim=self.ylims,
              knots_x=self.knots_x,
              knots_y=self.knots_y,
              extrap=self.extraps
              )
  \<close>
  Whether these calls return is decided by names alone: the attributes the expression
  reads, and the binding of the call's arguments to the constructor's parameters. The
  arguments are evaluated left to right before the call; reading an attribute the
  instance does not have raises AttributeError; a call with more positional arguments
  than the constructor has positional parameters, with a keyword it does not accept, or
  without a required argument raises TypeError. \<open>Module_\<close> and \<open>torch.nn.Module\<close>
  are not among the sources: the names an instance inherits from them are the parameter
  \<open>inherited\<close>.
\<close>

record signature =
  positional :: "string list"
  keyword_only :: "string list"
  required :: "string list"
  var_keyword :: bool

definition bind :: "signature \<Rightarrow> nat \<Rightarrow> string list \<Rightarrow> py_error + string list" where
  "bind sg n_positional keywords =
     (if length (positional sg) < n_positional then Inl TypeError
      else
        (let named = drop n_positional (positional sg) @ keyword_only sg;
             given = take n_positional (positional sg) @ keywords;
             extra = filter (\<lambda>k. k \<notin> set named) keywords
         in if extra \<noteq> [] \<and> \<not> var_keyword sg then Inl TypeError
            else if filter (\<lambda>p. p \<notin> set given) (required sg) \<noteq> [] then Inl TypeError
            else Inr extra))"

fun getattrs :: "string list \<Rightarrow> string list \<Rightarrow> py_error + unit" where
  "getattrs names [] = Inr ()"
| "getattrs names (a # rest) = (if a \<in> set names then getattrs names rest else Inl AttributeError)"

definition CouplingList_init_sig :: signature where
  "CouplingList_init_sig =
     \<lparr>positional = [''nets''],
      keyword_only = [''mask'', ''channels_axis'', ''zee2sym'', ''label''],
      required = [''nets'', ''mask''], var_keyword = False\<rparr>"

definition RQSplineList_init_sig :: signature where
  "RQSplineList_init_sig =
     \<lparr>positional = [''nets''],
      keyword_only = [''mask'', ''xlim'', ''ylim'', ''knots_x'', ''knots_y'', ''extrap''],
      required = [''nets'', ''mask''], var_keyword = True\<rparr>"

definition MultiRQSplineList_init_sig :: signature where
  "MultiRQSplineList_init_sig =
     \<lparr>positional = [''nets''],
      keyword_only = [''mask'', ''xlims'', ''ylims'', ''knots_x'', ''knots_y'', ''extraps''],
      required = [''nets'', ''mask''], var_keyword = True\<rparr>"

text \<open>The attributes the constructors set, and the names the classes define.\<close>

definition CouplingList_attrs :: "string list" where
  "CouplingList_attrs =
     [''label'', ''nets'', ''mask'', ''channels_axis'', ''zee2sym'',
      ''forward'', ''backward'', ''atomic_forward'', ''atomic_backward'', ''preprocess_fz'',
      ''preprocess'', ''postprocess'', ''transfer'']"

definition RQSplineList_attrs :: "string list" where
  "RQSplineList_attrs =
     CouplingList_attrs
     @ [''xlim'', ''xwidth'', ''ylim'', ''ywidth'', ''knots_x'', ''knots_y'', ''extrap'',
        ''softmax'', ''softplus'', ''_hack'', ''make_spline'']"

definition MultiRQSplineList_attrs :: "string list" where
  "MultiRQSplineList_attrs =
     CouplingList_attrs
     @ [''num_splines'', ''xlims'', ''ylims'', ''xwidths'', ''ywidths'', ''knots_x'',
        ''knots_y'', ''extraps'', ''softmax'', ''softplus'', ''make_spline'', ''apply_spline'']"

text \<open>
  Each \<open>transfer\<close>, with \<open>mask_given\<close> telling whether the caller passed a mask: the
  result is the list of attributes of the new instance, or the exception.
\<close>

definition CouplingList_transfer :: "string list \<Rightarrow> bool \<Rightarrow> py_error + string list" where
  "CouplingList_transfer inherited mask_given =
     (case getattrs (inherited @ CouplingList_attrs)
             ([''nets''] @ (if mask_given then [] else [''mask''])
              @ [''label'', ''channels_axis'', ''zee2sym'']) of
        Inl e \<Rightarrow> Inl e
      | Inr _ \<Rightarrow>
          (case bind CouplingList_init_sig 1
                  [''mask'', ''label'', ''channels_axis'', ''zee2sym''] of
             Inl e \<Rightarrow> Inl e
           | Inr _ \<Rightarrow> Inr CouplingList_attrs))"

definition RQSplineList_transfer :: "string list \<Rightarrow> bool \<Rightarrow> py_error + string list" where
  "RQSplineList_transfer inherited mask_given =
     (case getattrs (inherited @ RQSplineList_attrs)
             ([''net0'', ''net1''] @ (if mask_given then [] else [''mask''])
              @ [''label'', ''channels_axis'', ''xlim'', ''ylim'', ''knots_x'', ''knots_y'',
                 ''extrap'']) of
        Inl e \<Rightarrow> Inl e
      | Inr _ \<Rightarrow>
          (case bind RQSplineList_init_sig 2
                  [''mask'', ''label'', ''channels_axis'', ''xlim'', ''ylim'', ''knots_x'',
                   ''knots_y'', ''extrap''] of
             Inl e \<Rightarrow> Inl e
           | Inr kwargs \<Rightarrow>
               (case bind CouplingList_init_sig 1 (''mask'' # kwargs) of
                  Inl e \<Rightarrow> Inl e
                | Inr _ \<Rightarrow> Inr RQSplineList_attrs)))"

definition MultiRQSplineList_transfer :: "string list \<Rightarrow> bool \<Rightarrow> py_error + string list" where
  "MultiRQSplineList_transfer inherited mask_given =
     (case getattrs (inherited @ MultiRQSplineList_attrs)
             ([''net0'', ''net1''] @ (if mask_given then [] else [''mask''])
              @ [''label'', ''channels_axis'', ''xlims'', ''ylims'', ''knots_x'', ''knots_y'',
                 ''extraps'']) of
        Inl e \<Rightarrow> Inl e
      | Inr _ \<Rightarrow>
          (case bind MultiRQSplineList_init_sig 2
                  [''mask'', ''label'', ''channels_axis'', ''xlim'', ''ylim'', ''knots_x'',
                   ''knots_y'', ''extrap''] of
             Inl e \<Rightarrow> Inl e
           | Inr kwargs \<Rightarrow>
               (case bind CouplingList_init_sig 1 (''mask'' # kwargs) of
                  Inl e \<Rightarrow> Inl e
                | Inr _ \<Rightarrow> Inr MultiRQSplineList_attrs)))"

section \<open>Concrete inputs\<close>

text \<open>
  A persisted reference, and a small blocked model: the pre-image is an integer, block
  \<open>ind\<close> adds \<open>1 + ind\<close> to it (remembering the old value), restore puts the old value
  back, the flow is the identity with log-Jacobian 0, the prior is flat and the action
  is the value itself.
\<close>

definition demo_ref :: "nat ref_state" where
  "demo_ref = \<lparr>ref_sample = Some 7, ref_logq = Some 1, ref_logp = Some 0, ref_logqp = Some 1\<rparr>"

definition demo_model :: "(int, int, int) blocked_model" where
  "demo_model = \<lparr>blockupdater = (\<lambda>u x ind. (x, x + 1 + int ind)),
                  blockupdater_restore = (\<lambda>u x ind. (u, u)),
                  net_forward = (\<lambda>x. (x, 0)),
                  prior_log_prob = (\<lambda>x. 0),
                  action = (\<lambda>y. real_of_int y)\<rparr>"






section \<open>Properties of the Metropolis correction\<close>

lemma length_accept_loop: "length (accept_loop rand_arr r k xs) = length xs"
  by (induction xs arbitrary: r k) (simp_all add: Let_def)

lemma accept_loop_nth:
  "i < length xs \<Longrightarrow> r = spec_reference rand_arr (pre @ xs) r0 (length pre) \<Longrightarrow>
   accept_loop rand_arr r (length pre) xs ! i =
     (rand_arr ! (length pre + i)
        < spec_reference rand_arr (pre @ xs) r0 (length pre + i) - (pre @ xs) ! (length pre + i))"
proof (induction xs arbitrary: pre r i)
  case Nil
  then show ?case by simp
next
  case (Cons x xs)
  show ?case
  proof (cases i)
    case 0
    then show ?thesis using Cons.prems by (simp add: Let_def nth_append)
  next
    case (Suc j)
    let ?pre = "pre @ [x]"
    let ?r = "if rand_arr ! length pre < r - x then x else r"
    have j: "j < length xs" using Cons.prems Suc by simp
    have r: "?r = spec_reference rand_arr (?pre @ xs) r0 (length ?pre)"
      using Cons.prems(2) by (simp add: nth_append)
    from Cons.IH [OF j r] show ?thesis
      using Suc by (simp add: Let_def)
  qed
qed

text \<open>
  C2. \<open>calc_accept_status\<close> is the sequential independence-chain algorithm: the
  reference starts at \<open>logqp[0]\<close> when none is given, position \<open>i\<close> is accepted exactly
  when its log-draw is below the reference in force minus \<open>logqp[i]\<close>, and an accepted
  position becomes the reference for the positions after it.
\<close>

theorem calc_accept_status_sequential:
  assumes "length rand_arr = length logqp"
    and "logqp_ref = None \<longrightarrow> logqp \<noteq> []"
  shows "\<exists>status. calc_accept_status logqp logqp_ref rand_arr = Inr status
           \<and> length status = length logqp
           \<and> (\<forall>i < length logqp.
                 status ! i =
                   (rand_arr ! i
                      < spec_reference rand_arr logqp (start_reference logqp logqp_ref) i
                        - logqp ! i))"
proof -
  let ?r0 = "start_reference logqp logqp_ref"
  have run: "calc_accept_status logqp logqp_ref rand_arr = Inr (accept_loop rand_arr ?r0 0 logqp)"
    using assms(2)
    by (cases logqp_ref; cases logqp) (simp_all add: calc_accept_status_def start_reference_def)
  have nth: "accept_loop rand_arr ?r0 0 logqp ! i =
      (rand_arr ! i < spec_reference rand_arr logqp ?r0 i - logqp ! i)"
    if "i < length logqp" for i
    using accept_loop_nth [of i logqp ?r0 rand_arr "[]" ?r0] that by simp
  show ?thesis
    using run nth by (simp add: length_accept_loop)
qed

theorem calc_accept_status_sequential_witness:
  "\<exists>status. calc_accept_status [0, -1, 2] None [-1, -1, -1] = Inr status
     \<and> length status = 3
     \<and> status ! 0 = (- 1 < spec_reference [-1, -1, -1] [0, -1, 2] (start_reference [0, -1, 2] None) 0 - 0)
     \<and> status ! 1 = (- 1 < spec_reference [-1, -1, -1] [0, -1, 2] (start_reference [0, -1, 2] None) 1 - (- 1))
     \<and> status ! 2 = (- 1 < spec_reference [-1, -1, -1] [0, -1, 2] (start_reference [0, -1, 2] None) 2 - 2)"
proof -
  have len: "length [-1, -1, -1 :: real] = length [0, -1, 2 :: real]" by simp
  have ne: "(None :: real option) = None \<longrightarrow> [0, -1, 2 :: real] \<noteq> []" by simp
  from calc_accept_status_sequential [OF len ne]
  obtain status where st: "calc_accept_status [0, -1, 2] None [-1, -1, -1] = Inr status"
      "length status = length [0, -1, 2 :: real]"
      "\<forall>i < length [0, -1, 2 :: real]. status ! i =
          ([-1, -1, -1] ! i
             < spec_reference [-1, -1, -1] [0, -1, 2] (start_reference [0, -1, 2] None) i
               - [0, -1, 2] ! i)"
    by blast
  have "status ! 0 = ([-1, -1, -1] ! 0
          < spec_reference [-1, -1, -1] [0, -1, 2] (start_reference [0, -1, 2] None) 0 - [0, -1, 2 :: real] ! 0)"
    using st(3) by simp
  moreover have "status ! 1 = ([-1, -1, -1] ! 1
          < spec_reference [-1, -1, -1] [0, -1, 2] (start_reference [0, -1, 2] None) 1 - [0, -1, 2 :: real] ! 1)"
    using st(3) by simp
  moreover have "status ! 2 = ([-1, -1, -1] ! 2
          < spec_reference [-1, -1, -1] [0, -1, 2] (start_reference [0, -1, 2] None) 2 - [0, -1, 2 :: real] ! 2)"
    using st(3) by simp
  ultimately show ?thesis
    using st(1,2) by simp
qed

lemma length_indices_loop: "length (indices_loop c k xs) = length xs"
  by (induction xs arbitrary: c k) (simp_all add: Let_def)

lemma indices_loop_nth:
  "i < length xs \<Longrightarrow>
     (indices_loop c k xs ! i = c \<and> (\<forall>j\<le>i. \<not> xs ! j))
   \<or> (k \<le> indices_loop c k xs ! i \<and> indices_loop c k xs ! i \<le> k + i
        \<and> xs ! (indices_loop c k xs ! i - k)
        \<and> (\<forall>j. indices_loop c k xs ! i - k < j \<and> j \<le> i \<longrightarrow> \<not> xs ! j))"
proof (induction xs arbitrary: c k i)
  case Nil
  then show ?case by simp
next
  case (Cons a xs)
  show ?case
  proof (cases i)
    case 0
    then show ?thesis by (simp add: Let_def)
  next
    case (Suc m)
    define c' where "c' = (if a then k else c)"
    define r where "r = indices_loop c' (Suc k) xs ! m"
    have m: "m < length xs" using Cons.prems Suc by simp
    have r: "indices_loop c k (a # xs) ! i = r" using Suc by (simp add: Let_def r_def c'_def)
    from Cons.IH [OF m, of c' "Suc k"]
    consider (none) "r = c'" "\<forall>j\<le>m. \<not> xs ! j"
      | (some) "Suc k \<le> r" "r \<le> Suc k + m" "xs ! (r - Suc k)"
          "\<forall>j. r - Suc k < j \<and> j \<le> m \<longrightarrow> \<not> xs ! j"
      unfolding r_def by blast
    then have "(r = c \<and> (\<forall>j\<le>i. \<not> (a # xs) ! j))
        \<or> (k \<le> r \<and> r \<le> k + i \<and> (a # xs) ! (r - k)
            \<and> (\<forall>j. r - k < j \<and> j \<le> i \<longrightarrow> \<not> (a # xs) ! j))"
    proof cases
      case none
      show ?thesis
      proof (cases a)
        case True
        then have "r = k" using none(1) by (simp add: c'_def)
        moreover have "\<forall>j. 0 < j \<and> j \<le> i \<longrightarrow> \<not> (a # xs) ! j"
          using none(2) Suc by (auto simp: nth_Cons split: nat.splits)
        ultimately show ?thesis using True by simp
      next
        case False
        then have "r = c" using none(1) by (simp add: c'_def)
        moreover have "\<forall>j\<le>i. \<not> (a # xs) ! j"
          using none(2) Suc False by (auto simp: nth_Cons split: nat.splits)
        ultimately show ?thesis by simp
      qed
    next
      case some
      obtain d where d: "r - k = Suc d" "r - Suc k = d" using some(1) by (cases "r - k") auto
      have "(a # xs) ! (r - k)" using some(3) d by simp
      moreover have "\<forall>j. r - k < j \<and> j \<le> i \<longrightarrow> \<not> (a # xs) ! j"
      proof (intro allI impI)
        fix j assume j: "r - k < j \<and> j \<le> i"
        then obtain j' where j': "j = Suc j'" by (cases j) auto
        have "r - Suc k < j' \<and> j' \<le> m" using j j' Suc d by auto
        then show "\<not> (a # xs) ! j" using some(4) j' by simp
      qed
      ultimately show ?thesis using some(1,2) Suc by simp
    qed
    then show ?thesis unfolding r .
  qed
qed

text \<open>
  C9. \<open>calc_accept_indices\<close> maps every position \<open>i\<close> to the most recent accepted
  position at or before \<open>i\<close>, position 0 counting as accepted whatever its status: the
  result is at most \<open>i\<close>, it is an accepted position or 0, and no position after it up to
  \<open>i\<close> is accepted. Position 0 always maps to 0.
\<close>

theorem calc_accept_indices_most_recent:
  "length (calc_accept_indices status) = length status
   \<and> (\<forall>i < length status.
         calc_accept_indices status ! i \<le> i
         \<and> (status ! (calc_accept_indices status ! i) \<or> calc_accept_indices status ! i = 0)
         \<and> (\<forall>j. calc_accept_indices status ! i < j \<and> j \<le> i \<longrightarrow> \<not> status ! j))
   \<and> (status \<noteq> [] \<longrightarrow> calc_accept_indices status ! 0 = 0)"
proof (intro conjI allI impI)
  show "length (calc_accept_indices status) = length status"
    by (simp add: calc_accept_indices_def length_indices_loop)
next
  fix i assume i: "i < length status"
  note h = indices_loop_nth [OF i, of 0 0, folded calc_accept_indices_def]
  show "calc_accept_indices status ! i \<le> i" using h by auto
  show "status ! (calc_accept_indices status ! i) \<or> calc_accept_indices status ! i = 0"
    using h by auto
  fix j assume "calc_accept_indices status ! i < j \<and> j \<le> i"
  then show "\<not> status ! j" using h by auto
next
  assume "status \<noteq> []"
  then show "calc_accept_indices status ! 0 = 0"
    by (cases status) (simp_all add: calc_accept_indices_def Let_def)
qed

theorem calc_accept_indices_most_recent_witness:
  "length (calc_accept_indices [False, True, False]) = 3
   \<and> calc_accept_indices [False, True, False] ! 2 \<le> 2
   \<and> calc_accept_indices [False, True, False] ! 2 = 1
   \<and> calc_accept_indices [False, True, False] ! 0 = 0"
proof -
  have ne: "[False, True, False] \<noteq> []" by simp
  have two: "2 < length [False, True, False]" by simp
  from calc_accept_indices_most_recent [of "[False, True, False]"]
  have a: "length (calc_accept_indices [False, True, False]) = length [False, True, False]"
    and b: "calc_accept_indices [False, True, False] ! 2 \<le> 2"
    and c: "calc_accept_indices [False, True, False] ! 0 = 0"
    using ne two by blast+
  have d: "calc_accept_indices [False, True, False] ! 2 = 1"
    by (simp add: calc_accept_indices_def Let_def)
  show ?thesis using a b c d by simp
qed

text \<open>
  C5 as stated fails. The worked example of the specification, on the code: with log-draws
  \<open>[-0.1, -0.1, -0.1, -5]\<close>, \<open>logqp = [0, -1, 2, -0.5]\<close> and no reference, the status is
  \<open>[True, True, False, True]\<close> (position 1 is accepted since \<open>-0.1 < 0 - (-1)\<close>, and
  position 2 is rejected since \<open>-0.1 < -1 - 2\<close> fails), not \<open>[True, False, True, False]\<close>;
  its indices are \<open>[0, 1, 1, 3]\<close>. On the status the specification names,
  \<open>calc_accept_indices\<close> does return \<open>[0, 0, 2, 2]\<close>.
\<close>

theorem metropolis_example_counterexample:
  "calc_accept_status [0, -1, 2, -1/2] None [-1/10, -1/10, -1/10, -5]
     \<noteq> Inr [True, False, True, False]"
  by (simp add: calc_accept_status_def Let_def)

text \<open>
  C5, amended. With log-draws \<open>[-0.1, -0.1, -0.1, -5]\<close>, \<open>logqp = [0, -1, 2, -0.5]\<close>
  and no reference, \<open>calc_accept_status\<close> returns \<open>[True, True, False, True]\<close>, and
  \<open>calc_accept_indices\<close> of that status is \<open>[0, 1, 1, 3]\<close>; of the status
  \<open>[True, False, True, False]\<close> it is \<open>[0, 0, 2, 2]\<close>.
\<close>

theorem metropolis_example:
  "calc_accept_status [0, -1, 2, -1/2] None [-1/10, -1/10, -1/10, -5]
     = Inr [True, True, False, True]
   \<and> calc_accept_indices [True, True, False, True] = [0, 1, 1, 3]
   \<and> calc_accept_indices [True, False, True, False] = [0, 0, 2, 2]"
  by (simp add: calc_accept_status_def calc_accept_indices_def Let_def)

lemma np_where_empty: "(np_where status = []) = (True \<notin> set status)"
  by (auto simp: np_where_def filter_empty_conv in_set_conv_nth)

lemma states_unbound: "map_of (count_scope status ind mul) ''states'' = None"
  by (simp add: count_scope_def module_globals_def builtins_used_def)

text \<open>
  C10. \<open>calc_accept_count\<close> never returns: when no entry of the status is accepted,
  \<open>ind[0]\<close> raises IndexError; otherwise the name \<open>states\<close> is unbound and raises
  NameError.
\<close>

theorem calc_accept_count_always_raises:
  "calc_accept_count status = Inl (if True \<in> set status then NameError else IndexError)"
proof (cases "np_where status")
  case Nil
  then show ?thesis using np_where_empty [of status] by (simp add: calc_accept_count_def)
next
  case (Cons a list)
  then have "True \<in> set status" using np_where_empty [of status] by auto
  then show ?thesis using Cons by (simp add: calc_accept_count_def states_unbound Let_def)
qed

section \<open>Properties of the samplers\<close>

lemma calc_accept_status_run:
  "(logqp_ref = None \<longrightarrow> logqp \<noteq> []) \<Longrightarrow>
   calc_accept_status logqp logqp_ref rand_arr
     = Inr (accept_loop rand_arr (start_reference logqp logqp_ref) 0 logqp)"
  by (cases logqp_ref; cases logqp) (simp_all add: calc_accept_status_def start_reference_def)

lemma accept_loop_first:
  "logqp \<noteq> [] \<Longrightarrow> accept_loop rand_arr r 0 logqp ! 0 = (rand_arr ! 0 < r - logqp ! 0)"
  by (cases logqp) (simp_all add: Let_def)

lemma calc_accept_indices_first:
  "status \<noteq> [] \<Longrightarrow> calc_accept_indices status ! 0 = 0"
  by (cases status) (simp_all add: calc_accept_indices_def Let_def)

lemma length_calc_accept_indices: "length (calc_accept_indices status) = length status"
  by (simp add: calc_accept_indices_def length_indices_loop)

lemma index_select_first:
  "ind \<noteq> [] \<Longrightarrow> ind ! 0 = 0 \<Longrightarrow> index_select x ind ! 0 = x ! 0"
  by (cases ind) (simp_all add: index_select_def)

lemma accept_reject_step_unfold:
  assumes "calc_accept_status (map2 (\<lambda>a b. a - b) logq logp) (ref_logqp ref) rand_arr = Inr accept_seq"
    and "accept_seq = accept_0 # rest"
    and "first_item ref accept_0 y logq logp = Inr (y1, logq1, logp1)"
    and "ind = calc_accept_indices accept_seq"
  shows "accept_reject_step ref y logq logp rand_arr
        = Inr (\<lparr>ref_sample = Some (last (index_select y1 ind)),
                 ref_logq = Some (last (index_select logq1 ind)),
                 ref_logp = Some (last (index_select logp1 ind)),
                 ref_logqp = Some (last (index_select logq1 ind) - last (index_select logp1 ind))\<rparr>,
               (index_select y1 ind, index_select logq1 ind, index_select logp1 ind),
               (accept_seq, ind))"
  using assms by (simp add: accept_reject_step_def Let_def)

text \<open>
  C3. Chain continuity of \<open>_accept_reject_step\<close>, for a batch of one or more proposals
  (three arrays of one length, one log-draw each) and a reference that is either
  populated or still empty with a first log-draw below 0 (the logarithm of a draw from
  \<open>[0, 1)\<close>): the step returns; the statuses are those of \<open>calc_accept_status\<close> run
  against the persisted \<open>_ref['logqp']\<close>, so that the first decision is taken against
  it; when the first proposal is rejected, its sample, logq and logp are replaced by the
  persisted ones before the accept indices select the emitted batch; and the new
  reference holds the last emitted sample, logq and logp, with \<open>logqp\<close> their
  difference.
\<close>

theorem accept_reject_step_chain:
  assumes batch: "y \<noteq> []" "length logq = length y" "length logp = length y"
      "length rand_arr = length y"
    and ref: "ref_populated ref \<or> (ref = init_ref \<and> rand_arr ! 0 < 0)"
  shows "\<exists>ref' ys lqs lps accept_seq.
      accept_reject_step ref y logq logp rand_arr
        = Inr (ref', (ys, lqs, lps), (accept_seq, calc_accept_indices accept_seq))
    \<and> calc_accept_status (map2 (\<lambda>a b. a - b) logq logp) (ref_logqp ref) rand_arr = Inr accept_seq
    \<and> length accept_seq = length y
    \<and> accept_seq ! 0
        = (rand_arr ! 0
             < start_reference (map2 (\<lambda>a b. a - b) logq logp) (ref_logqp ref) - (logq ! 0 - logp ! 0))
    \<and> (accept_seq ! 0 \<longrightarrow>
          ys = index_select y (calc_accept_indices accept_seq)
        \<and> lqs = index_select logq (calc_accept_indices accept_seq)
        \<and> lps = index_select logp (calc_accept_indices accept_seq))
    \<and> (\<not> accept_seq ! 0 \<longrightarrow>
          (\<exists>s q p. ref_sample ref = Some s \<and> ref_logq ref = Some q \<and> ref_logp ref = Some p
            \<and> ys = index_select (y[0 := s]) (calc_accept_indices accept_seq)
            \<and> lqs = index_select (logq[0 := q]) (calc_accept_indices accept_seq)
            \<and> lps = index_select (logp[0 := p]) (calc_accept_indices accept_seq)
            \<and> ys ! 0 = s \<and> lqs ! 0 = q \<and> lps ! 0 = p))
    \<and> ref_sample ref' = Some (last ys)
    \<and> ref_logq ref' = Some (last lqs)
    \<and> ref_logp ref' = Some (last lps)
    \<and> ref_logqp ref' = Some (last lqs - last lps)"
proof -
  let ?logqp = "map2 (\<lambda>a b. a - b) logq logp"
  let ?r0 = "start_reference ?logqp (ref_logqp ref)"
  define accept_seq where "accept_seq = accept_loop rand_arr ?r0 0 ?logqp"
  define ind where "ind = calc_accept_indices accept_seq"
  have len_logqp: "length ?logqp = length y" using batch by simp
  then have ne: "?logqp \<noteq> []" using batch(1) by (metis length_0_conv)
  have status: "calc_accept_status ?logqp (ref_logqp ref) rand_arr = Inr accept_seq"
    unfolding accept_seq_def using ne by (intro calc_accept_status_run) simp
  have len: "length accept_seq = length y"
    by (simp add: accept_seq_def length_accept_loop len_logqp del: length_map)
  then have ne_seq: "accept_seq \<noteq> []" using batch(1) by (metis length_0_conv)
  then obtain accept_0 rest where seq: "accept_seq = accept_0 # rest" by (cases accept_seq) auto
  have a0: "accept_0 = accept_seq ! 0" using seq by simp
  have logqp0: "?logqp ! 0 = logq ! 0 - logp ! 0"
    using batch by (cases logq; cases logp) auto
  have first: "accept_seq ! 0 = (rand_arr ! 0 < ?r0 - (logq ! 0 - logp ! 0))"
    unfolding accept_seq_def using accept_loop_first [OF ne] logqp0 by simp
  have ind_ne: "ind \<noteq> []"
    using ne_seq length_calc_accept_indices [of accept_seq] by (metis ind_def length_0_conv)
  have ind0: "ind ! 0 = 0" unfolding ind_def by (rule calc_accept_indices_first [OF ne_seq])
  have y0: "0 < length y" "0 < length logq" "0 < length logp" using batch by auto
  show ?thesis
  proof (cases "accept_seq ! 0")
    case True
    have fi: "first_item ref accept_0 y logq logp = Inr (y, logq, logp)"
      using True a0 by (simp add: first_item_def)
    have step: "accept_reject_step ref y logq logp rand_arr
        = Inr (\<lparr>ref_sample = Some (last (index_select y ind)),
                 ref_logq = Some (last (index_select logq ind)),
                 ref_logp = Some (last (index_select logp ind)),
                 ref_logqp = Some (last (index_select logq ind) - last (index_select logp ind))\<rparr>,
               (index_select y ind, index_select logq ind, index_select logp ind),
               (accept_seq, ind))"
      by (rule accept_reject_step_unfold [OF status seq fi ind_def])
    show ?thesis
      using step status len first True unfolding ind_def by simp
  next
    case False
    have "ref_populated ref"
    proof (rule ccontr)
      assume "\<not> ref_populated ref"
      then have fresh: "ref = init_ref" "rand_arr ! 0 < 0" using ref by auto
      then have "?r0 = ?logqp ! 0" by (simp add: init_ref_def start_reference_def)
      then have "accept_seq ! 0" using first fresh(2) logqp0 by simp
      then show False using False by simp
    qed
    then obtain s q p where pop: "ref_sample ref = Some s" "ref_logq ref = Some q"
        "ref_logp ref = Some p"
      by (auto simp: ref_populated_def)
    have fi: "first_item ref accept_0 y logq logp = Inr (y[0 := s], logq[0 := q], logp[0 := p])"
      using False a0 pop by (simp add: first_item_def)
    have step: "accept_reject_step ref y logq logp rand_arr
        = Inr (\<lparr>ref_sample = Some (last (index_select (y[0 := s]) ind)),
                 ref_logq = Some (last (index_select (logq[0 := q]) ind)),
                 ref_logp = Some (last (index_select (logp[0 := p]) ind)),
                 ref_logqp = Some (last (index_select (logq[0 := q]) ind)
                                   - last (index_select (logp[0 := p]) ind))\<rparr>,
               (index_select (y[0 := s]) ind, index_select (logq[0 := q]) ind,
                index_select (logp[0 := p]) ind),
               (accept_seq, ind))"
      by (rule accept_reject_step_unfold [OF status seq fi ind_def])
    have z: "index_select (y[0 := s]) ind ! 0 = s" "index_select (logq[0 := q]) ind ! 0 = q"
        "index_select (logp[0 := p]) ind ! 0 = p"
      using y0 by (simp_all add: index_select_first [OF ind_ne ind0] nth_list_update_eq del: length_greater_0_conv)
    show ?thesis
      using step status len first False pop z unfolding ind_def by simp
  qed
qed

theorem accept_reject_step_chain_witness:
  "\<exists>ref' ys lqs lps accept_seq.
      accept_reject_step demo_ref [10, 11] [3, 0] [0, 0] [-1, -1]
        = Inr (ref', (ys, lqs, lps), (accept_seq, calc_accept_indices accept_seq))
    \<and> accept_seq = [False, True]
    \<and> ys = [7, 11] \<and> lqs = [1, 0] \<and> lps = [0, 0]
    \<and> ref_sample ref' = Some (last ys)
    \<and> ref_logqp ref' = Some (last lqs - last lps)"
proof -
  have b: "[10, 11 :: nat] \<noteq> []" "length [3, 0 :: real] = length [10, 11 :: nat]"
      "length [0, 0 :: real] = length [10, 11 :: nat]"
      "length [-1, -1 :: real] = length [10, 11 :: nat]"
    by simp_all
  have r: "ref_populated demo_ref \<or> (demo_ref = init_ref \<and> [-1, -1 :: real] ! 0 < 0)"
    by (simp add: ref_populated_def demo_ref_def)
  from accept_reject_step_chain [OF b r]
  obtain ref' ys lqs lps accept_seq where st:
      "accept_reject_step demo_ref [10, 11] [3, 0] [0, 0] [-1, -1]
        = Inr (ref', (ys, lqs, lps), (accept_seq, calc_accept_indices accept_seq))"
      "ref_sample ref' = Some (last ys)"
      "ref_logqp ref' = Some (last lqs - last lps)"
    by blast
  have ev: "accept_reject_step demo_ref [10, 11] [3, 0] [0, 0] [-1, -1]
      = Inr (\<lparr>ref_sample = Some 11, ref_logq = Some 0, ref_logp = Some 0, ref_logqp = Some 0\<rparr>,
             ([7, 11], [1, 0], [0, 0]), ([False, True], [0, 1]))"
    by (simp add: accept_reject_step_def calc_accept_status_def first_item_def
          calc_accept_indices_def index_select_def demo_ref_def Let_def)
  show ?thesis using st ev by simp
qed

lemma sweep_loop_append:
  "sweep_loop M lr (xs @ ys) s =
     (case sweep_loop M lr xs s of Inl e \<Rightarrow> Inl e | Inr s' \<Rightarrow> sweep_loop M lr ys s')"
  by (induction xs arbitrary: s) (simp_all split: sum.splits)

lemma sweep_Suc:
  "sweep M u x (Suc n) logqp_ref lr =
     (case sweep M u x n logqp_ref lr of Inl e \<Rightarrow> Inl e | Inr s \<Rightarrow> sweep_block M lr n s)"
  by (simp add: sweep_def sweep_loop_append split: sum.splits)

lemma sweep_0:
  "sweep M u x 0 logqp_ref lr =
     Inr \<lparr>sw_x = x, sw_updater = u, sw_logqp_ref = logqp_ref, sw_accept_seq = [], sw_calls = []\<rparr>"
  by (simp add: sweep_def)

text \<open>One block, from a state in which the reference is known unless the block is block 0.\<close>

lemma sweep_block_cases:
  fixes lr :: "real list"
  assumes "ind = 0 \<or> sw_logqp_ref s \<noteq> None"
    and "blockupdater M (sw_updater s) (sw_x s) ind = (u1, x1)"
  defines "new \<equiv> log_ratio M x1"
  defines "accept \<equiv> ((ind = 0 \<and> sw_logqp_ref s = None)
                       \<or> (\<exists>r. sw_logqp_ref s = Some r \<and> lr ! ind < r - new))"
  shows "\<exists>t. sweep_block M lr ind s = Inr t
          \<and> sw_accept_seq t = sw_accept_seq s @ [accept]
          \<and> sw_calls t = sw_calls s @ (if accept then [Update ind] else [Update ind, Restore ind])
          \<and> (accept \<longrightarrow> sw_logqp_ref t = Some new \<and> sw_x t = x1 \<and> sw_updater t = u1)
          \<and> (\<not> accept \<longrightarrow> sw_logqp_ref t = sw_logqp_ref s
                \<and> (sw_updater t, sw_x t) = blockupdater_restore M u1 x1 ind)"
proof -
  obtain y logJ where net: "net_forward M x1 = (y, logJ)" by (cases "net_forward M x1")
  have new: "new = prior_log_prob M x1 - logJ - (- action M y)"
    by (simp add: new_def log_ratio_def net)
  have cond: "metropolis_condition ind (sw_logqp_ref s) lr new = Inr accept"
    using assms(1) by (auto simp: metropolis_condition_def accept_def split: option.splits)
  obtain u2 x2 where res: "blockupdater_restore M u1 x1 ind = (u2, x2)"
    by (cases "blockupdater_restore M u1 x1 ind")
  show ?thesis
    using cond unfolding new
    by (cases accept) (simp_all add: sweep_block_def assms(2) net res)
qed

lemma sweep_invariant:
  "\<exists>s. sweep M u x n logqp_ref lr = Inr s
      \<and> length (sw_accept_seq s) = n
      \<and> (0 < n \<longrightarrow> sw_logqp_ref s \<noteq> None)
      \<and> sw_calls s = concat (map (\<lambda>i. if sw_accept_seq s ! i then [Update i]
                                        else [Update i, Restore i]) [0..<n])"
proof (induction n)
  case 0
  show ?case by (simp add: sweep_0)
next
  case (Suc n)
  then obtain s where s: "sweep M u x n logqp_ref lr = Inr s" "length (sw_accept_seq s) = n"
      "0 < n \<longrightarrow> sw_logqp_ref s \<noteq> None"
      "sw_calls s = concat (map (\<lambda>i. if sw_accept_seq s ! i then [Update i]
                                        else [Update i, Restore i]) [0..<n])"
    by blast
  obtain u1 x1 where upd: "blockupdater M (sw_updater s) (sw_x s) n = (u1, x1)"
    by (cases "blockupdater M (sw_updater s) (sw_x s) n")
  have pre: "n = 0 \<or> sw_logqp_ref s \<noteq> None" using s(3) by auto
  define accept where "accept = ((n = 0 \<and> sw_logqp_ref s = None)
      \<or> (\<exists>r. sw_logqp_ref s = Some r \<and> lr ! n < r - log_ratio M x1))"
  from sweep_block_cases [OF pre upd, of lr, folded accept_def]
  obtain t where t: "sweep_block M lr n s = Inr t"
      "sw_accept_seq t = sw_accept_seq s @ [accept]"
      "sw_calls t = sw_calls s @ (if accept then [Update n] else [Update n, Restore n])"
      "accept \<longrightarrow> sw_logqp_ref t = Some (log_ratio M x1)"
      "\<not> accept \<longrightarrow> sw_logqp_ref t = sw_logqp_ref s"
    by blast
  have run: "sweep M u x (Suc n) logqp_ref lr = Inr t" by (simp add: sweep_Suc s(1) t(1))
  have ref: "sw_logqp_ref t \<noteq> None"
    using t(4,5) pre by (cases accept) (auto simp: accept_def)
  have nth: "sw_accept_seq t ! i = sw_accept_seq s ! i" if "i < n" for i
    using that s(2) by (simp add: t(2) nth_append)
  have last: "sw_accept_seq t ! n = accept" using s(2) by (simp add: t(2) nth_append)
  have same: "map (\<lambda>i. if sw_accept_seq s ! i then [Update i] else [Update i, Restore i]) [0..<n]
      = map (\<lambda>i. if sw_accept_seq t ! i then [Update i] else [Update i, Restore i]) [0..<n]"
    by (rule map_cong) (simp_all add: nth)
  have calls: "sw_calls t = concat (map (\<lambda>i. if sw_accept_seq t ! i then [Update i]
                                        else [Update i, Restore i]) [0..<Suc n])"
    using last by (simp add: t(3) s(4) same)
  show ?case using run ref calls s(2) by (simp add: t(2))
qed

lemma sweep_prefix:
  "sweep M u x n logqp_ref lr = Inr s \<Longrightarrow> m \<le> n \<Longrightarrow>
   \<exists>t. sweep M u x m logqp_ref lr = Inr t \<and> sw_accept_seq t = take m (sw_accept_seq s)"
proof (induction n arbitrary: s)
  case 0
  then show ?case by (auto simp: sweep_0)
next
  case (Suc n)
  show ?case
  proof (cases "m = Suc n")
    case True
    obtain s0 where "sweep M u x (Suc n) logqp_ref lr = Inr s0" "length (sw_accept_seq s0) = Suc n"
      using sweep_invariant [of M u x "Suc n" logqp_ref lr] by blast
    then show ?thesis using Suc.prems True by simp
  next
    case False
    then have m: "m \<le> n" using Suc.prems by simp
    obtain s0 where s0: "sweep M u x n logqp_ref lr = Inr s0" "length (sw_accept_seq s0) = n"
        "0 < n \<longrightarrow> sw_logqp_ref s0 \<noteq> None"
      using sweep_invariant [of M u x n logqp_ref lr] by blast
    obtain u1 x1 where upd: "blockupdater M (sw_updater s0) (sw_x s0) n = (u1, x1)"
      by (cases "blockupdater M (sw_updater s0) (sw_x s0) n")
    have pre: "n = 0 \<or> sw_logqp_ref s0 \<noteq> None" using s0(3) by auto
    from sweep_block_cases [OF pre upd, of lr]
    obtain t a where t: "sweep_block M lr n s0 = Inr t" "sw_accept_seq t = sw_accept_seq s0 @ [a]"
      by blast
    have "s = t" using Suc.prems(1) by (simp add: sweep_Suc s0(1) t(1))
    then have "take m (sw_accept_seq s) = take m (sw_accept_seq s0)"
      using m s0(2) by (simp add: t(2))
    then show ?thesis using Suc.IH [OF s0(1) m] by simp
  qed
qed

text \<open>
  C6. A sweep over any number of blocks returns, with one acceptance per block. The
  first block of a sweep that starts without a reference is accepted. The prior's
  primitives are called as: the updater on every block in order, and restore right after
  the updater on exactly the rejected blocks. Block \<open>ind\<close> starts from the state \<open>s\<close> the
  blocks before it left; it is accepted exactly when it is block 0 with no reference, or
  its log-draw is below the carried reference minus the new log-ratio; when accepted the
  carried reference becomes the new log-ratio and the updated pre-image is kept, when
  rejected the carried reference is unchanged and the pre-image is what restore returns.
\<close>

theorem sweep_blocks:
  "\<exists>s'. sweep M u x n_blocks logqp_ref lrand_arr = Inr s'
     \<and> length (sw_accept_seq s') = n_blocks
     \<and> (logqp_ref = None \<and> 0 < n_blocks \<longrightarrow> sw_accept_seq s' ! 0)
     \<and> sw_calls s' = concat (map (\<lambda>i. if sw_accept_seq s' ! i then [Update i]
                                         else [Update i, Restore i]) [0..<n_blocks])
     \<and> (\<forall>ind < n_blocks. \<exists>s t u1 x1.
            sweep M u x ind logqp_ref lrand_arr = Inr s
          \<and> sweep M u x (Suc ind) logqp_ref lrand_arr = Inr t
          \<and> blockupdater M (sw_updater s) (sw_x s) ind = (u1, x1)
          \<and> sw_accept_seq s' ! ind
              = ((ind = 0 \<and> sw_logqp_ref s = None)
                 \<or> (\<exists>r. sw_logqp_ref s = Some r \<and> lrand_arr ! ind < r - log_ratio M x1))
          \<and> (sw_accept_seq s' ! ind \<longrightarrow>
                sw_logqp_ref t = Some (log_ratio M x1) \<and> sw_x t = x1 \<and> sw_updater t = u1)
          \<and> (\<not> sw_accept_seq s' ! ind \<longrightarrow>
                sw_logqp_ref t = sw_logqp_ref s
              \<and> (sw_updater t, sw_x t) = blockupdater_restore M u1 x1 ind))"
proof -
  obtain s' where s': "sweep M u x n_blocks logqp_ref lrand_arr = Inr s'"
      "length (sw_accept_seq s') = n_blocks"
      "sw_calls s' = concat (map (\<lambda>i. if sw_accept_seq s' ! i then [Update i]
                                         else [Update i, Restore i]) [0..<n_blocks])"
    using sweep_invariant [of M u x n_blocks logqp_ref lrand_arr] by blast
  have block: "\<exists>s t u1 x1.
            sweep M u x ind logqp_ref lrand_arr = Inr s
          \<and> sweep M u x (Suc ind) logqp_ref lrand_arr = Inr t
          \<and> blockupdater M (sw_updater s) (sw_x s) ind = (u1, x1)
          \<and> sw_accept_seq s' ! ind
              = ((ind = 0 \<and> sw_logqp_ref s = None)
                 \<or> (\<exists>r. sw_logqp_ref s = Some r \<and> lrand_arr ! ind < r - log_ratio M x1))
          \<and> (sw_accept_seq s' ! ind \<longrightarrow>
                sw_logqp_ref t = Some (log_ratio M x1) \<and> sw_x t = x1 \<and> sw_updater t = u1)
          \<and> (\<not> sw_accept_seq s' ! ind \<longrightarrow>
                sw_logqp_ref t = sw_logqp_ref s
              \<and> (sw_updater t, sw_x t) = blockupdater_restore M u1 x1 ind)"
    if ind: "ind < n_blocks" for ind
  proof -
    obtain s where s: "sweep M u x ind logqp_ref lrand_arr = Inr s"
        "length (sw_accept_seq s) = ind" "0 < ind \<longrightarrow> sw_logqp_ref s \<noteq> None"
      using sweep_invariant [of M u x ind logqp_ref lrand_arr] by blast
    obtain u1 x1 where upd: "blockupdater M (sw_updater s) (sw_x s) ind = (u1, x1)"
      by (cases "blockupdater M (sw_updater s) (sw_x s) ind")
    have pre: "ind = 0 \<or> sw_logqp_ref s \<noteq> None" using s(3) by auto
    define accept where "accept = ((ind = 0 \<and> sw_logqp_ref s = None)
        \<or> (\<exists>r. sw_logqp_ref s = Some r \<and> lrand_arr ! ind < r - log_ratio M x1))"
    from sweep_block_cases [OF pre upd, of lrand_arr, folded accept_def]
    obtain t where t: "sweep_block M lrand_arr ind s = Inr t"
        "sw_accept_seq t = sw_accept_seq s @ [accept]"
        "accept \<longrightarrow> sw_logqp_ref t = Some (log_ratio M x1) \<and> sw_x t = x1 \<and> sw_updater t = u1"
        "\<not> accept \<longrightarrow> sw_logqp_ref t = sw_logqp_ref s
            \<and> (sw_updater t, sw_x t) = blockupdater_restore M u1 x1 ind"
      by blast
    have run: "sweep M u x (Suc ind) logqp_ref lrand_arr = Inr t"
      by (simp add: sweep_Suc s(1) t(1))
    from sweep_prefix [OF s'(1), of "Suc ind"] ind run
    have "sw_accept_seq t = take (Suc ind) (sw_accept_seq s')" by simp
    then have "sw_accept_seq s' ! ind = sw_accept_seq t ! ind" by simp
    also have "\<dots> = accept" using s(2) by (simp add: t(2) nth_append)
    finally have acc: "sw_accept_seq s' ! ind = accept" .
    show ?thesis
      using s(1) run upd acc t(3,4) unfolding accept_def by blast
  qed
  have first: "sw_accept_seq s' ! 0" if "logqp_ref = None" "0 < n_blocks"
  proof -
    from block [OF that(2)] obtain s where
      s: "sweep M u x 0 logqp_ref lrand_arr = Inr s"
         "sw_accept_seq s' ! 0 = ((0 = (0::nat) \<and> sw_logqp_ref s = None)
             \<or> (\<exists>r. sw_logqp_ref s = Some r \<and> lrand_arr ! 0
                   < r - log_ratio M (snd (blockupdater M (sw_updater s) (sw_x s) 0))))"
      by force
    have "sw_logqp_ref s = None" using s(1) that(1) by (auto simp: sweep_0)
    then show ?thesis using s(2) by simp
  qed
  show ?thesis
    using s' first block by blast
qed

lemma demo_sweep:
  "sweep demo_model 0 0 2 None [-1, -1]
     = Inr \<lparr>sw_x = 1, sw_updater = 1, sw_logqp_ref = Some 1,
            sw_accept_seq = [True, False], sw_calls = [Update 0, Update 1, Restore 1]\<rparr>"
  by (simp add: sweep_def sweep_block_def metropolis_condition_def demo_model_def upt_rec
        numeral_2_eq_2)

theorem sweep_blocks_witness:
  "\<exists>s'. sweep demo_model 0 0 2 None [-1, -1] = Inr s'
     \<and> length (sw_accept_seq s') = 2
     \<and> sw_accept_seq s' ! 0
     \<and> sw_calls s' = [Update 0, Update 1, Restore 1]
     \<and> sw_logqp_ref s' = Some 1"
proof -
  from sweep_blocks [of demo_model 0 0 2 None "[-1, -1]"]
  obtain s' where s': "sweep demo_model 0 0 2 None [-1, -1] = Inr s'"
      "length (sw_accept_seq s') = 2"
      "(None :: real option) = None \<and> 0 < (2::nat) \<longrightarrow> sw_accept_seq s' ! 0"
    by blast
  have "sw_calls s' = [Update 0, Update 1, Restore 1]" "sw_logqp_ref s' = Some 1"
    using s'(1) by (auto simp: demo_sweep)
  then show ?thesis using s' by simp
qed


section \<open>Properties of the mask\<close>

subsection \<open>Mask entries\<close>








subsection \<open>Tensors, entry by entry\<close>


lemma shaped_nth: "shaped b n t \<Longrightarrow> r < b \<Longrightarrow> length (t ! r) = n"
  by (simp add: shaped_def)

lemma shaped_length: "shaped b n t \<Longrightarrow> length t = b"
  by (simp add: shaped_def)








subsection \<open>The same-shape mode\<close>



subsection \<open>The reshaped mode\<close>


lemma index_put_Nil [simp]: "index_put row [] vals = row" "index_put row ps [] = row"
  by (simp_all add: index_put_def)

lemma index_put_Cons [simp]:
  "index_put row (p # ps) (v # vals) = index_put (row[p := v]) ps vals"
  by (simp add: index_put_def)

























section \<open>Properties of the coupling lists\<close>

subsection \<open>Elementwise operations, entry by entry\<close>











subsection \<open>purify, entry by entry\<close>







subsection \<open>One layer\<close>







subsection \<open>The two loops\<close>












section \<open>Properties of the controlled coupling lists\<close>









section \<open>Properties of transfer\<close>

lemma bind_two_positionals:
  "length (positional sg) = 1 \<Longrightarrow> bind sg 2 keywords = Inl TypeError"
  by (simp add: bind_def)

lemma raises_either:
  "\<exists>e. (case g of Inl e \<Rightarrow> Inl e | Inr u \<Rightarrow> (case Inl TypeError of Inl e \<Rightarrow> Inl e | Inr k \<Rightarrow> h k))
        = (Inl e :: py_error + string list)"
  by (cases g) simp_all

lemma RQSplineList_transfer_own_names:
  "RQSplineList_transfer [] mask_given = Inl AttributeError"
proof -
  have "RQSplineList_transfer [] True = Inl AttributeError"
    "RQSplineList_transfer [] False = Inl AttributeError"
    by code_simp+
  then show ?thesis by (cases mask_given) simp_all
qed

lemma MultiRQSplineList_transfer_own_names:
  "MultiRQSplineList_transfer [] mask_given = Inl AttributeError"
proof -
  have "MultiRQSplineList_transfer [] True = Inl AttributeError"
    "MultiRQSplineList_transfer [] False = Inl AttributeError"
    by code_simp+
  then show ?thesis by (cases mask_given) simp_all
qed

lemma CouplingList_transfer_own_names:
  "CouplingList_transfer [] mask_given = Inr CouplingList_attrs"
proof -
  have "CouplingList_transfer [] True = Inr CouplingList_attrs"
    "CouplingList_transfer [] False = Inr CouplingList_attrs"
    by code_simp+
  then show ?thesis by (cases mask_given) simp_all
qed

text \<open>
  C7 on the code. \<open>transfer\<close> of \<open>RQSplineList_\<close> and of \<open>MultiRQSplineList_\<close> never
  returns, whatever names the instance inherits: it reads \<open>self.net0\<close> and \<open>self.net1\<close>,
  which no constructor of these classes sets (AttributeError), and had they been set it
  would call a constructor of one positional parameter with two positional arguments
  (TypeError). \<open>transfer\<close> of \<open>CouplingList_\<close>, which the shift and affine lists
  inherit, binds its arguments and returns.
\<close>

theorem spline_transfer_raises:
  "(\<exists>e. RQSplineList_transfer inherited mask_given = Inl e)
   \<and> (\<exists>e. MultiRQSplineList_transfer inherited mask_given = Inl e)
   \<and> RQSplineList_transfer [] mask_given = Inl AttributeError
   \<and> MultiRQSplineList_transfer [] mask_given = Inl AttributeError
   \<and> CouplingList_transfer [] mask_given = Inr CouplingList_attrs"
proof -
  have r: "bind RQSplineList_init_sig 2 ks = Inl TypeError" for ks
    by (rule bind_two_positionals) (simp add: RQSplineList_init_sig_def)
  have m: "bind MultiRQSplineList_init_sig 2 ks = Inl TypeError" for ks
    by (rule bind_two_positionals) (simp add: MultiRQSplineList_init_sig_def)
  have a: "\<exists>e. RQSplineList_transfer inherited mask_given = Inl e"
    unfolding RQSplineList_transfer_def r by (rule raises_either)
  have b: "\<exists>e. MultiRQSplineList_transfer inherited mask_given = Inl e"
    unfolding MultiRQSplineList_transfer_def m by (rule raises_either)
  show ?thesis
    using a b RQSplineList_transfer_own_names MultiRQSplineList_transfer_own_names
      CouplingList_transfer_own_names
    by blast
qed

end
